theory Spec2Isabelle
  imports Main
begin

section \<open>The path tokenizer (src/index.ts, \<^verbatim>\<open>tokenize\<close>)\<close>

text \<open>
  A JavaScript string is a sequence of code units; the tokenizer looks at one code unit
  at a time and compares it only with the backslash, the dot and the two square brackets,
  so a path is modelled as a \<^typ>\<open>string\<close> (a list of characters).

  The source scans the path with an index \<^verbatim>\<open>i\<close>. The model carries the part of the
  path from index \<^verbatim>\<open>i\<close> on: \<^verbatim>\<open>path[i]\<close> is the head of that list, \<^verbatim>\<open>path[i + 1]\<close>
  the head of its tail, an index past the end reads \<^verbatim>\<open>undefined\<close> (which is equal to no
  character), and \<^verbatim>\<open>i++\<close> drops one element (dropping from the empty list leaves it
  empty, as an index past the end stays past the end).
\<close>

abbreviation backslash :: char where
  "backslash \<equiv> CHR 0x5C"

text \<open>\<^verbatim>\<open>if (current) segments.push(current)\<close>: the empty string is falsy.\<close>

definition push_segment :: "string list \<Rightarrow> string \<Rightarrow> string list" where
  "push_segment segments current = (if current \<noteq> [] then segments @ [current] else segments)"

text \<open>
  The inner loop \<^verbatim>\<open>while (i < path.length && path[i] !== "]") current += path[i++]\<close>.
  It returns the accumulator and the rest of the path, which is empty or starts with the
  closing bracket.
\<close>

fun read_bracket :: "string \<Rightarrow> string \<Rightarrow> string \<times> string" where
  "read_bracket current [] = (current, [])"
| "read_bracket current (c # cs) =
     (if c \<noteq> CHR '']'' then read_bracket (current @ [c]) cs else (current, c # cs))"

text \<open>\<^verbatim>\<open>if (path[i] === ".") i++\<close>\<close>

fun skip_dot :: "string \<Rightarrow> string" where
  "skip_dot [] = []"
| "skip_dot (c # cs) = (if c = CHR ''.'' then cs else c # cs)"

text \<open>\<^verbatim>\<open>path[i + 1] === "."\<close>, where the argument is the path from index \<^verbatim>\<open>i + 1\<close> on.\<close>

fun next_is_dot :: "string \<Rightarrow> bool" where
  "next_is_dot [] = False"
| "next_is_dot (c # cs) = (c = CHR ''.'')"

lemma read_bracket_length: "length (snd (read_bracket current cs)) \<le> length cs"
  by (induction cs arbitrary: current) (auto intro: le_SucI)

lemma skip_dot_length: "length (skip_dot cs) \<le> length cs"
  by (cases cs) auto

lemma after_bracket_length:
  "(content, rest) = read_bracket current cs \<Longrightarrow>
     length (skip_dot (drop (Suc 0) rest)) < Suc (length cs)"
proof -
  assume "(content, rest) = read_bracket current cs"
  then have "snd (read_bracket current cs) = rest"
    by (metis snd_conv)
  then have "length rest \<le> length cs"
    using read_bracket_length [of current cs] by simp
  moreover have "length (skip_dot (drop (Suc 0) rest)) \<le> length (drop (Suc 0) rest)"
    by (rule skip_dot_length)
  ultimately show ?thesis by simp
qed

text \<open>The outer loop \<^verbatim>\<open>while (i < path.length)\<close> with its four branches, in source order.\<close>

function tokenize_loop :: "string list \<Rightarrow> string \<Rightarrow> string \<Rightarrow> string list" where
  "tokenize_loop segments current [] = push_segment segments current"
| "tokenize_loop segments current (ch # rest) =
     (if ch = backslash \<and> next_is_dot rest then
        tokenize_loop segments (current @ ''.'') (drop 1 rest)
      else if ch = CHR ''.'' then
        tokenize_loop (push_segment segments current) [] rest
      else if ch = CHR ''['' then
        (case read_bracket [] rest of
           (content, rest') \<Rightarrow>
             tokenize_loop (push_segment (push_segment segments current) content) []
               (skip_dot (drop 1 rest')))
      else
        tokenize_loop segments (current @ [ch]) rest)"
  by pat_completeness auto
termination
  by (relation "measure (\<lambda>(segments, current, rest). length rest)")
     (auto dest: after_bracket_length)

definition tokenize :: "string \<Rightarrow> string list" where
  "tokenize path = tokenize_loop [] [] path"

section \<open>JavaScript values and the object heap\<close>

text \<open>
  The root value and the fallback have the type \<^verbatim>\<open>any\<close>. A value is a primitive or a
  reference to an object; objects, arrays and functions live in a heap, so that two
  references can share an object and a prototype (such as \<^verbatim>\<open>Object.prototype\<close>) is
  shared by every object that inherits from it. Numbers are never inspected by the
  code and are carried as integers.

  An object is an ordinary object: it has own properties (an association list from
  property key to property, the first entry of a key being its property), a prototype
  link, and is callable or not. An own property is a data property, which holds a
  value, or an accessor property, whose getter is code of the caller that runs when the
  property is read. An array is an object whose own properties are its index keys
  \<^verbatim>\<open>"0"\<close>, \<^verbatim>\<open>"1"\<close>, ... and \<^verbatim>\<open>"length"\<close>; a hole of a sparse array is a missing index
  key. Proxy objects, symbols and big integers are not represented.
\<close>

type_synonym addr = nat

datatype jsval = Undefined | Null | Bool bool | Num int | Str string | Ref addr

text \<open>
  An evaluation completes normally with a value or abruptly with a thrown error: the
  TypeError of the language, or an error that the caller's code throws.
\<close>

datatype js_error = TypeError | Error string

datatype 'a completion = Normal 'a | Throw js_error

text \<open>
  A getter is recorded by what a run of it does: the property writes it performs (object,
  key, new value), in order, and then the value it returns or the error it throws.
\<close>

datatype getter = Getter (writes: "(addr \<times> string \<times> jsval) list") (result: "jsval completion")

datatype property = Data jsval | Accessor getter

record jsobj =
  callable :: bool
  own :: "(string \<times> property) list"
  proto :: "addr option"

type_synonym heap = "addr \<Rightarrow> jsobj"

text \<open>The assignment \<^verbatim>\<open>o[key] = v\<close> of a getter's body, on the object at address \<open>a\<close>.\<close>

definition write_property :: "addr \<times> string \<times> jsval \<Rightarrow> heap \<Rightarrow> heap" where
  "write_property w h =
     (case w of (a, key, v) \<Rightarrow>
        h(a := (h a)\<lparr>own := (key, Data v) # filter (\<lambda>kp. fst kp \<noteq> key) (own (h a))\<rparr>))"

text \<open>Running a getter: its writes, then its completion.\<close>

definition getter_heap :: "getter \<Rightarrow> heap \<Rightarrow> heap" where
  "getter_heap g h = fold write_property (writes g) h"

definition run_getter :: "getter \<Rightarrow> heap \<Rightarrow> jsval completion \<times> heap" where
  "run_getter g h = (result g, getter_heap g h)"

text \<open>The intrinsic prototype objects of the realm have fixed addresses.\<close>

definition Object_prototype :: addr where "Object_prototype = 0"
definition String_prototype :: addr where "String_prototype = 1"
definition Number_prototype :: addr where "Number_prototype = 2"
definition Boolean_prototype :: addr where "Boolean_prototype = 3"
definition Array_prototype :: addr where "Array_prototype = 4"

text \<open>The decimal representation of an array index, as \<^verbatim>\<open>ToString\<close> gives it.\<close>

fun string_of_nat :: "nat \<Rightarrow> string" where
  "string_of_nat n =
     (if n < 10 then [''0123456789'' ! n]
      else string_of_nat (n div 10) @ [''0123456789'' ! (n mod 10)])"

text \<open>The own properties of an array with the given elements.\<close>

definition array_properties :: "jsval list \<Rightarrow> (string \<times> property) list" where
  "array_properties xs =
     zip (map string_of_nat [0..<length xs]) (map Data xs) @
     [(''length'', Data (Num (int (length xs))))]"

text \<open>
  The own properties of the wrapper object that \<^verbatim>\<open>ToObject\<close> makes of a primitive:
  a string has its code units under the index keys and \<^verbatim>\<open>"length"\<close>; a boolean and a
  number have none.
\<close>

fun own_properties :: "heap \<Rightarrow> jsval \<Rightarrow> (string \<times> property) list" where
  "own_properties h (Ref a) = own (h a)"
| "own_properties h (Str s) = array_properties (map (\<lambda>c. Str [c]) s)"
| "own_properties h v = []"

text \<open>\<^verbatim>\<open>typeof v\<close>\<close>

fun typeof :: "heap \<Rightarrow> jsval \<Rightarrow> string" where
  "typeof h Undefined = ''undefined''"
| "typeof h Null = ''object''"
| "typeof h (Bool b) = ''boolean''"
| "typeof h (Num n) = ''number''"
| "typeof h (Str s) = ''string''"
| "typeof h (Ref a) = (if callable (h a) then ''function'' else ''object'')"

text \<open>\<^verbatim>\<open>v == null\<close>: loose equality with null holds of null and undefined only.\<close>

definition loose_eq_null :: "jsval \<Rightarrow> bool" where
  "loose_eq_null v = (v = Null \<or> v = Undefined)"

text \<open>
  \<^verbatim>\<open>Object.prototype.hasOwnProperty.call(v, key)\<close>: \<^verbatim>\<open>ToObject\<close> throws a TypeError for
  undefined and null; otherwise the own properties are searched, never the prototype,
  and an accessor property is found without running its getter. The heap is read and
  returned as it is.
\<close>

definition hasOwnProperty_call :: "heap \<Rightarrow> jsval \<Rightarrow> string \<Rightarrow> bool completion \<times> heap" where
  "hasOwnProperty_call h v key =
     (if v = Undefined \<or> v = Null then (Throw TypeError, h)
      else (Normal (map_of (own_properties h v) key \<noteq> None), h))"

text \<open>
  The search of a property along the prototype chain: the own property if there is one,
  otherwise the same search on the prototype, and nothing at the end of the chain. The
  chain of a heap that JavaScript built is finite; on a cyclic chain the search does not
  return, which is the value \<open>None\<close>.
\<close>

partial_function (option) find_property :: "heap \<Rightarrow> addr \<Rightarrow> string \<Rightarrow> property option option" where
  "find_property h a key =
     (case map_of (own (h a)) key of
        Some p \<Rightarrow> Some (Some p)
      | None \<Rightarrow> (case proto (h a) of None \<Rightarrow> Some None | Some q \<Rightarrow> find_property h q key))"

text \<open>
  The value of a property that was searched: undefined when there is none, the value of
  a data property, and for an accessor property what its getter does.
\<close>

fun read_property :: "heap \<Rightarrow> property option \<Rightarrow> jsval completion \<times> heap" where
  "read_property h None = (Normal Undefined, h)"
| "read_property h (Some (Data v)) = (Normal v, h)"
| "read_property h (Some (Accessor g)) = run_getter g h"

text \<open>
  The member access \<^verbatim>\<open>v[key]\<close>: a TypeError on undefined and null; on an object the
  property found along its chain; on a primitive, the own property of its wrapper and
  then the chain of the intrinsic prototype.
\<close>

fun get_member :: "heap \<Rightarrow> jsval \<Rightarrow> string \<Rightarrow> (jsval completion \<times> heap) option" where
  "get_member h Undefined key = Some (Throw TypeError, h)"
| "get_member h Null key = Some (Throw TypeError, h)"
| "get_member h (Ref a) key = map_option (read_property h) (find_property h a key)"
| "get_member h v key =
     (case map_of (own_properties h v) key of
        Some p \<Rightarrow> Some (read_property h (Some p))
      | None \<Rightarrow>
          map_option (read_property h)
            (find_property h
               (case v of Str s \<Rightarrow> String_prototype | Num n \<Rightarrow> Number_prototype
                | _ \<Rightarrow> Boolean_prototype) key))"

section \<open>The traversal (src/index.ts, \<^verbatim>\<open>fallbackValue\<close>)\<close>

text \<open>\<^verbatim>\<open>const UNSAFE_KEYS = new Set(["__proto__", "prototype", "constructor"])\<close>\<close>

definition UNSAFE_KEYS :: "string set" where
  "UNSAFE_KEYS = {''__proto__'', ''prototype'', ''constructor''}"

text \<open>
  \<^verbatim>\<open>SENTINEL\<close> is a symbol private to the module: the variable \<^verbatim>\<open>current\<close> holds it or a
  value, and no value of the caller is equal to it.
\<close>

datatype slot = SENTINEL | Value jsval

text \<open>
  \<^verbatim>\<open>Object.prototype.hasOwnProperty.call(current, segment) ? current[segment] : SENTINEL\<close>
\<close>

definition own_or_sentinel :: "heap \<Rightarrow> jsval \<Rightarrow> string \<Rightarrow> (slot completion \<times> heap) option" where
  "own_or_sentinel h current segment =
     (case hasOwnProperty_call h current segment of
        (Throw e, h1) \<Rightarrow> Some (Throw e, h1)
      | (Normal has, h1) \<Rightarrow>
          if has then
            (case get_member h1 current segment of
               None \<Rightarrow> None
             | Some (Throw e, h2) \<Rightarrow> Some (Throw e, h2)
             | Some (Normal v, h2) \<Rightarrow> Some (Normal (Value v), h2))
          else Some (Normal SENTINEL, h1))"

text \<open>
  The loop \<^verbatim>\<open>for (const segment of segments)\<close>. It is left by a \<^verbatim>\<open>return\<close> in its body,
  by a thrown error, or at the end of the segments with the last \<^verbatim>\<open>current\<close>.
\<close>

datatype loop_exit = Return jsval | Finished jsval

fun for_segments ::
  "heap \<Rightarrow> jsval \<Rightarrow> jsval \<Rightarrow> string list \<Rightarrow> (loop_exit completion \<times> heap) option" where
  "for_segments h defaultVal current [] = Some (Normal (Finished current), h)"
| "for_segments h defaultVal current (segment # segments) =
     (if segment \<in> UNSAFE_KEYS then Some (Normal (Return defaultVal), h)
      else if loose_eq_null current \<or>
              (typeof h current \<noteq> ''object'' \<and> typeof h current \<noteq> ''function'')
        then Some (Normal (Return defaultVal), h)
      else
        (case own_or_sentinel h current segment of
           None \<Rightarrow> None
         | Some (Throw e, h1) \<Rightarrow> Some (Throw e, h1)
         | Some (Normal current1, h1) \<Rightarrow>
             (case current1 of
                SENTINEL \<Rightarrow> Some (Normal (Return defaultVal), h1)
              | Value v \<Rightarrow> for_segments h1 defaultVal v segments)))"

text \<open>
  The second argument: a string, \<^verbatim>\<open>null\<close>, or \<^verbatim>\<open>undefined\<close> when it is omitted.
  The test \<^verbatim>\<open>path != null\<close> holds of every string, the empty string included, and
  fails for \<^verbatim>\<open>null\<close> and \<^verbatim>\<open>undefined\<close>.
\<close>

datatype path_arg = Path_undefined | Path_null | Path string

text \<open>
  The default initialiser of the third parameter, \<^verbatim>\<open>defaultVal: any = null\<close>: an
  omitted argument is \<^verbatim>\<open>undefined\<close>, and \<^verbatim>\<open>undefined\<close> takes the default.
\<close>

definition defaultVal_of :: "jsval \<Rightarrow> jsval" where
  "defaultVal_of arg = (if arg = Undefined then Null else arg)"

definition fallbackValue ::
  "heap \<Rightarrow> jsval \<Rightarrow> path_arg \<Rightarrow> jsval \<Rightarrow> (jsval completion \<times> heap) option" where
  "fallbackValue h val path arg =
     (let defaultVal = defaultVal_of arg in
      case path of
        Path p \<Rightarrow>
          (case for_segments h defaultVal val (tokenize p) of
             None \<Rightarrow> None
           | Some (Throw e, h1) \<Rightarrow> Some (Throw e, h1)
           | Some (Normal (Return v), h1) \<Rightarrow> Some (Normal v, h1)
           | Some (Normal (Finished current), h1) \<Rightarrow>
               Some (Normal (if current = Undefined then defaultVal else current), h1))
      | _ \<Rightarrow> Some (Normal (if loose_eq_null val then defaultVal else val), h))"

section \<open>Notions used to state the properties\<close>

text \<open>
  A successful traversal: the value that the segments lead to from \<open>v\<close> when no segment
  is an unsafe key and every step finds the segment among the own data properties of an
  object; \<open>None\<close> when some step fails or meets an accessor property.
\<close>

fun walk_own :: "heap \<Rightarrow> jsval \<Rightarrow> string list \<Rightarrow> jsval option" where
  "walk_own h v [] = Some v"
| "walk_own h v (segment # segments) =
     (if segment \<in> UNSAFE_KEYS then None
      else case v of
        Ref a \<Rightarrow>
          (case map_of (own (h a)) segment of
             Some (Data v') \<Rightarrow> walk_own h v' segments
           | _ \<Rightarrow> None)
      | _ \<Rightarrow> None)"

text \<open>
  The getters that the traversal runs, in the order in which it runs them: the getter of
  each accessor property that a step reads. A getter that throws is the last one, and the
  steps after a getter are taken in the heap that it leaves.
\<close>

fun getters_run :: "heap \<Rightarrow> jsval \<Rightarrow> string list \<Rightarrow> getter list" where
  "getters_run h v [] = []"
| "getters_run h v (segment # segments) =
     (if segment \<in> UNSAFE_KEYS then []
      else case v of
        Ref a \<Rightarrow>
          (case map_of (own (h a)) segment of
             None \<Rightarrow> []
           | Some (Data v') \<Rightarrow> getters_run h v' segments
           | Some (Accessor g) \<Rightarrow>
               g # (case result g of
                      Throw e \<Rightarrow> []
                    | Normal v' \<Rightarrow> getters_run (getter_heap g h) v' segments))
      | _ \<Rightarrow> [])"

definition returns :: "getter \<Rightarrow> bool" where
  "returns g = (case result g of Normal v \<Rightarrow> True | Throw e \<Rightarrow> False)"

text \<open>The path a caller builds from a key by writing a backslash before every dot.\<close>

fun escape_dots :: "string \<Rightarrow> string" where
  "escape_dots [] = []"
| "escape_dots (c # cs) =
     (if c = CHR ''.'' then backslash # CHR ''.'' # escape_dots cs else c # escape_dots cs)"

text \<open>Heaps and objects for the examples.\<close>

definition empty_heap :: heap where
  "empty_heap = (\<lambda>a. \<lparr>callable = False, own = [], proto = None\<rparr>)"

definition plain_object :: "(string \<times> jsval) list \<Rightarrow> jsobj" where
  "plain_object props =
     \<lparr>callable = False, own = map (\<lambda>(key, v). (key, Data v)) props,
      proto = Some Object_prototype\<rparr>"

definition array_object :: "jsval list \<Rightarrow> jsobj" where
  "array_object xs =
     \<lparr>callable = False, own = array_properties xs, proto = Some Array_prototype\<rparr>"

text \<open>\<^verbatim>\<open>{ items: [1, 2] }\<close> at address 10, under an \<^verbatim>\<open>Object.prototype\<close> that has a method.\<close>

definition items_heap :: heap where
  "items_heap = empty_heap
     (Object_prototype :=
        \<lparr>callable = False, own = [(''toString'', Data (Ref 5))], proto = None\<rparr>,
      5 := \<lparr>callable = True, own = [(''length'', Data (Num 0))], proto = None\<rparr>,
      10 := plain_object [(''items'', Ref 11)],
      11 := array_object [Num 1, Num 2])"

text \<open>\<^verbatim>\<open>{ a: { b: { c: 42 } } }\<close> at address 10.\<close>

definition nested_heap :: heap where
  "nested_heap = empty_heap
     (10 := plain_object [(''a'', Ref 11)],
      11 := plain_object [(''b'', Ref 12)],
      12 := plain_object [(''c'', Num 42)])"

text \<open>\<^verbatim>\<open>{ matrix: [[1, 2], [3, 4]] }\<close> at address 10.\<close>

definition matrix_heap :: heap where
  "matrix_heap = empty_heap
     (10 := plain_object [(''matrix'', Ref 11)],
      11 := array_object [Ref 12, Ref 13],
      12 := array_object [Num 1, Num 2],
      13 := array_object [Num 3, Num 4])"

text \<open>\<^verbatim>\<open>{ "a.b": { c: 42 } }\<close> at address 10.\<close>

definition dotted_heap :: heap where
  "dotted_heap = empty_heap
     (10 := plain_object [(''a.b'', Ref 11)],
      11 := plain_object [(''c'', Num 42)])"

text \<open>
  \<^verbatim>\<open>{ a: "not-an-object" }\<close>, \<^verbatim>\<open>{ a: 42 }\<close>, \<^verbatim>\<open>{ a: null }\<close>, \<^verbatim>\<open>{ a: undefined }\<close> and
  \<^verbatim>\<open>{ a: {} }\<close> at the addresses 10 to 14.
\<close>

definition intermediates_heap :: heap where
  "intermediates_heap = empty_heap
     (10 := plain_object [(''a'', Str ''not-an-object'')],
      11 := plain_object [(''a'', Num 42)],
      12 := plain_object [(''a'', Null)],
      13 := plain_object [(''a'', Undefined)],
      14 := plain_object [(''a'', Ref 15)],
      15 := plain_object [])"

text \<open>\<^verbatim>\<open>{ get a() { throw new Error("boom") } }\<close> at address 10.\<close>

definition throwing_getter_heap :: heap where
  "throwing_getter_heap = empty_heap
     (10 := \<lparr>callable = False,
             own = [(''a'', Accessor (Getter [] (Throw (Error ''boom''))))],
             proto = Some Object_prototype\<rparr>)"

text \<open>\<^verbatim>\<open>{ n: 0, get a() { this.n++; return 1 } }\<close> at address 10.\<close>

definition counting_getter_heap :: heap where
  "counting_getter_heap = empty_heap
     (10 := \<lparr>callable = False,
             own = [(''n'', Data (Num 0)),
                    (''a'', Accessor (Getter [(10, ''n'', Num 1)] (Normal (Num 1))))],
             proto = Some Object_prototype\<rparr>)"

text \<open>\<^verbatim>\<open>{ get a() { Object.prototype.injected = 1; return this } }\<close> at address 10.\<close>

definition polluting_getter_heap :: heap where
  "polluting_getter_heap = empty_heap
     (10 := \<lparr>callable = False,
             own = [(''a'', Accessor (Getter [(Object_prototype, ''injected'', Num 1)]
                                        (Normal (Ref 10))))],
             proto = Some Object_prototype\<rparr>)"

section \<open>The tokenizer: lemmas\<close>

lemma escape_dots_not_dot: "\<not> next_is_dot (escape_dots k)"
  by (cases k) auto

lemma tokenize_loop_escape_dots:
  "CHR ''['' \<notin> set k \<Longrightarrow>
   tokenize_loop segments current (escape_dots k) = push_segment segments (current @ k)"
proof (induction k arbitrary: current)
  case Nil
  show ?case by simp
next
  case (Cons c k)
  then have IH:
    "\<And>cur. tokenize_loop segments cur (escape_dots k) = push_segment segments (cur @ k)"
    by simp
  from Cons.prems have c: "c \<noteq> CHR ''[''" by auto
  show ?case
  proof (cases "c = CHR ''.''")
    case True
    then show ?thesis by (simp add: IH)
  next
    case False
    with c show ?thesis by (simp add: IH escape_dots_not_dot)
  qed
qed

lemma tokenize_escape_dots:
  "CHR ''['' \<notin> set k \<Longrightarrow> k \<noteq> [] \<Longrightarrow> tokenize (escape_dots k) = [k]"
  by (simp add: tokenize_def tokenize_loop_escape_dots push_segment_def)

lemma dotted_key_safe: "CHR ''.'' \<in> set k \<Longrightarrow> k \<notin> UNSAFE_KEYS"
  by (auto simp: UNSAFE_KEYS_def)

lemma read_bracket_closing:
  "CHR '']'' \<notin> set content \<Longrightarrow>
   read_bracket current (content @ CHR '']'' # rest) = (current @ content, CHR '']'' # rest)"
  by (induction content arbitrary: current) auto

lemma no_dot_not_next: "CHR ''.'' \<notin> set s \<Longrightarrow> \<not> next_is_dot s"
  by (cases s) auto

lemma tokenize_loop_plain:
  "CHR ''.'' \<notin> set s \<Longrightarrow> CHR ''['' \<notin> set s \<Longrightarrow>
   tokenize_loop segments current s = push_segment segments (current @ s)"
proof (induction s arbitrary: current)
  case Nil
  show ?case by simp
next
  case (Cons c s)
  then have IH:
    "\<And>cur. tokenize_loop segments cur s = push_segment segments (cur @ s)"
    by simp
  from Cons.prems have "c \<noteq> CHR ''.''" and "c \<noteq> CHR ''[''" and "\<not> next_is_dot s"
    by (auto simp: no_dot_not_next)
  then show ?case by (simp add: IH)
qed

section \<open>The traversal: lemmas\<close>

text \<open>An own property is found at the first step of the search, whatever the prototype.\<close>

lemma find_property_own:
  "map_of (own (h a)) key = Some p \<Longrightarrow> find_property h a key = Some (Some p)"
  by (subst find_property.simps) simp

lemma own_or_sentinel_Ref:
  "own_or_sentinel h (Ref a) segment =
     Some (case map_of (own (h a)) segment of
             None \<Rightarrow> (Normal SENTINEL, h)
           | Some (Data v) \<Rightarrow> (Normal (Value v), h)
           | Some (Accessor g) \<Rightarrow>
               (case result g of
                  Throw e \<Rightarrow> (Throw e, getter_heap g h)
                | Normal v \<Rightarrow> (Normal (Value v), getter_heap g h)))"
  by (simp add: own_or_sentinel_def hasOwnProperty_call_def find_property_own run_getter_def
      split: option.split property.split completion.split)

text \<open>One turn of the loop, by the kind of the current value and of the property.\<close>

lemma for_segments_unsafe:
  "segment \<in> UNSAFE_KEYS \<Longrightarrow>
   for_segments h defaultVal current (segment # segments) = Some (Normal (Return defaultVal), h)"
  by simp

lemma for_segments_not_Ref:
  "\<forall>a. current \<noteq> Ref a \<Longrightarrow>
   for_segments h defaultVal current (segment # segments) = Some (Normal (Return defaultVal), h)"
  by (cases current) (simp_all add: loose_eq_null_def)

lemma for_segments_Ref:
  "segment \<notin> UNSAFE_KEYS \<Longrightarrow>
   for_segments h defaultVal (Ref a) (segment # segments) =
     (case map_of (own (h a)) segment of
        None \<Rightarrow> Some (Normal (Return defaultVal), h)
      | Some (Data v) \<Rightarrow> for_segments h defaultVal v segments
      | Some (Accessor g) \<Rightarrow>
          (case result g of
             Throw e \<Rightarrow> Some (Throw e, getter_heap g h)
           | Normal v \<Rightarrow> for_segments (getter_heap g h) defaultVal v segments))"
  by (simp add: own_or_sentinel_Ref loose_eq_null_def
      split: option.split property.split completion.split)

declare for_segments.simps(2) [simp del]

text \<open>
  The loop always completes. The heap it leaves is the heap it was given with the writes
  of the getters it ran, and it completes normally exactly when each of them returns.
\<close>

lemma for_segments_getters:
  "\<exists>r. for_segments h defaultVal current segments =
          Some (r, fold getter_heap (getters_run h current segments) h) \<and>
        ((\<exists>x. r = Normal x) \<longleftrightarrow> (\<forall>g \<in> set (getters_run h current segments). returns g))"
proof (induction segments arbitrary: h current)
  case Nil
  show ?case by simp
next
  case (Cons segment segments)
  show ?case
  proof (cases "segment \<in> UNSAFE_KEYS")
    case True
    then show ?thesis by (simp add: for_segments_unsafe)
  next
    case safe: False
    show ?thesis
    proof (cases current)
      case (Ref a)
      show ?thesis
      proof (cases "map_of (own (h a)) segment")
        case None
        with safe Ref show ?thesis by (simp add: for_segments_Ref)
      next
        case (Some p)
        show ?thesis
        proof (cases p)
          case (Data v)
          with safe Ref Some Cons.IH [of h v] show ?thesis
            by (simp add: for_segments_Ref)
        next
          case (Accessor g)
          show ?thesis
          proof (cases "result g")
            case (Normal v)
            with safe Ref Some Accessor Cons.IH [of "getter_heap g h" v] show ?thesis
              by (simp add: for_segments_Ref returns_def)
          next
            case (Throw e)
            with safe Ref Some Accessor show ?thesis
              by (simp add: for_segments_Ref returns_def)
          qed
        qed
      qed
    qed (simp_all add: safe for_segments_not_Ref)
  qed
qed

text \<open>
  When the traversal runs no getter, the loop returns the default at a failing step and
  finishes with the value of the successful traversal otherwise, in the heap it was given.
\<close>

lemma for_segments_walk:
  "getters_run h current segments = [] \<Longrightarrow>
   for_segments h defaultVal current segments =
     Some (Normal (case walk_own h current segments of
                     None \<Rightarrow> Return defaultVal | Some v \<Rightarrow> Finished v), h)"
proof (induction segments arbitrary: current)
  case Nil
  show ?case by simp
next
  case (Cons segment segments)
  show ?case
  proof (cases "segment \<in> UNSAFE_KEYS")
    case True
    then show ?thesis by (simp add: for_segments_unsafe)
  next
    case safe: False
    show ?thesis
    proof (cases current)
      case (Ref a)
      with safe Cons show ?thesis
        by (auto simp: for_segments_Ref split: option.splits property.splits)
    qed (simp_all add: safe for_segments_not_Ref)
  qed
qed

lemma walk_own_no_getters:
  "walk_own h v segments = Some final \<Longrightarrow> getters_run h v segments = []"
  by (induction segments arbitrary: v)
     (auto split: if_splits jsval.splits option.splits property.splits)

text \<open>A reserved key among the segments: the loop returns the default unless a getter throws.\<close>

lemma for_segments_reserved:
  "segment \<in> set segments \<Longrightarrow> segment \<in> UNSAFE_KEYS \<Longrightarrow>
   \<forall>g \<in> set (getters_run h current segments). returns g \<Longrightarrow>
   for_segments h defaultVal current segments =
     Some (Normal (Return defaultVal), fold getter_heap (getters_run h current segments) h)"
proof (induction segments arbitrary: h current)
  case Nil
  then show ?case by simp
next
  case (Cons s segments)
  show ?case
  proof (cases "s \<in> UNSAFE_KEYS")
    case True
    then show ?thesis by (simp add: for_segments_unsafe)
  next
    case safe: False
    with Cons.prems have mem: "segment \<in> set segments" by auto
    show ?thesis
    proof (cases current)
      case (Ref a)
      show ?thesis
      proof (cases "map_of (own (h a)) s")
        case None
        with safe Ref show ?thesis by (simp add: for_segments_Ref)
      next
        case (Some p)
        show ?thesis
        proof (cases p)
          case (Data v)
          with safe Ref Some Cons.prems Cons.IH [OF mem Cons.prems(2), of h v] show ?thesis
            by (simp add: for_segments_Ref)
        next
          case (Accessor g)
          show ?thesis
          proof (cases "result g")
            case (Normal v)
            with safe Ref Some Accessor Cons.prems
              Cons.IH [OF mem Cons.prems(2), of "getter_heap g h" v]
            show ?thesis
              by (simp add: for_segments_Ref)
          next
            case (Throw e)
            with safe Ref Some Accessor Cons.prems show ?thesis
              by (simp add: returns_def)
          qed
        qed
      qed
    qed (simp_all add: safe for_segments_not_Ref)
  qed
qed

text \<open>Getters that write nothing leave the heap as it is.\<close>

lemma getter_heap_no_writes: "writes g = [] \<Longrightarrow> getter_heap g h = h"
  by (simp add: getter_heap_def)

lemma fold_getter_heap_no_writes:
  "\<forall>g \<in> set gs. writes g = [] \<Longrightarrow> fold getter_heap gs h = h"
  by (induction gs) (simp_all add: getter_heap_no_writes)

text \<open>Replacing the prototype links changes neither the loop's completion nor its writes.\<close>

definition with_protos :: "(addr \<Rightarrow> addr option) \<Rightarrow> heap \<Rightarrow> heap" where
  "with_protos pr h = (\<lambda>a. (h a)\<lparr>proto := pr a\<rparr>)"

lemma write_property_protos:
  "write_property w (with_protos pr h) = with_protos pr (write_property w h)"
  by (cases w) (auto simp: write_property_def with_protos_def fun_eq_iff)

lemma getter_heap_protos:
  "getter_heap g (with_protos pr h) = with_protos pr (getter_heap g h)"
proof -
  have "fold write_property ws (with_protos pr h) = with_protos pr (fold write_property ws h)"
    for ws
    by (induction ws arbitrary: h) (simp_all add: write_property_protos)
  then show ?thesis by (simp add: getter_heap_def)
qed

lemma for_segments_protos:
  "for_segments (with_protos pr h) defaultVal current segments =
     map_option (\<lambda>(r, h'). (r, with_protos pr h')) (for_segments h defaultVal current segments)"
proof (induction segments arbitrary: h current)
  case Nil
  show ?case by simp
next
  case (Cons segment segments)
  show ?case
  proof (cases "segment \<in> UNSAFE_KEYS")
    case True
    then show ?thesis by (simp add: for_segments_unsafe)
  next
    case safe: False
    show ?thesis
    proof (cases current)
      case (Ref a)
      have own: "own (with_protos pr h a) = own (h a)"
        by (simp add: with_protos_def)
      from safe Ref Cons.IH show ?thesis
        by (simp add: for_segments_Ref own getter_heap_protos
            split: option.split property.split completion.split)
    qed (simp_all add: safe for_segments_not_Ref)
  qed
qed

lemma fallbackValue_protos:
  "map_option fst (fallbackValue (with_protos pr h) val path arg) =
     map_option fst (fallbackValue h val path arg)"
proof (cases path)
  case (Path p)
  obtain r h' where "for_segments h (defaultVal_of arg) val (tokenize p) = Some (r, h')"
    using for_segments_getters [of h "defaultVal_of arg" val "tokenize p"] by blast
  with Path show ?thesis
    by (simp add: fallbackValue_def for_segments_protos
        split: completion.split loop_exit.split)
qed (simp_all add: fallbackValue_def)

text \<open>The call, with a path and without.\<close>

lemma fallbackValue_Path:
  "getters_run h val (tokenize p) = [] \<Longrightarrow>
   fallbackValue h val (Path p) arg =
     Some (Normal (case walk_own h val (tokenize p) of
                     None \<Rightarrow> defaultVal_of arg
                   | Some current \<Rightarrow>
                       if current = Undefined then defaultVal_of arg else current), h)"
  by (simp add: fallbackValue_def for_segments_walk split: option.split)

lemma fallbackValue_no_path:
  "path = Path_undefined \<or> path = Path_null \<Longrightarrow>
   fallbackValue h val path arg =
     Some (Normal (if loose_eq_null val then defaultVal_of arg else val), h)"
  by (auto simp: fallbackValue_def)

lemma fallbackValue_getters:
  "\<exists>r. fallbackValue h val (Path p) arg =
          Some (r, fold getter_heap (getters_run h val (tokenize p)) h) \<and>
        ((\<exists>x. r = Normal x) \<longleftrightarrow> (\<forall>g \<in> set (getters_run h val (tokenize p)). returns g))"
proof -
  obtain r where r:
    "for_segments h (defaultVal_of arg) val (tokenize p) =
       Some (r, fold getter_heap (getters_run h val (tokenize p)) h)"
    "(\<exists>x. r = Normal x) \<longleftrightarrow> (\<forall>g \<in> set (getters_run h val (tokenize p)). returns g)"
    using for_segments_getters [of h "defaultVal_of arg" val "tokenize p"] by blast
  show ?thesis
  proof (cases r)
    case (Normal x)
    with r show ?thesis
      by (cases x) (auto simp: fallbackValue_def)
  next
    case (Throw e)
    with r show ?thesis
      by (auto simp: fallbackValue_def)
  qed
qed

lemma walk_own_append:
  "walk_own h v (pre @ post) =
     (case walk_own h v pre of None \<Rightarrow> None | Some c \<Rightarrow> walk_own h c post)"
  by (induction pre arbitrary: v) (auto split: jsval.splits option.splits property.splits)

lemma getters_run_append:
  "walk_own h v pre = Some c \<Longrightarrow> getters_run h v (pre @ post) = getters_run h c post"
  by (induction pre arbitrary: v)
     (auto split: if_splits jsval.splits option.splits property.splits)

lemma walk_own_step_fails:
  "current = Null \<or> current = Undefined \<or>
   (typeof h current \<noteq> ''object'' \<and> typeof h current \<noteq> ''function'') \<or>
   map_of (own_properties h current) segment = None \<Longrightarrow>
   walk_own h current (segment # post) = None \<and> getters_run h current (segment # post) = []"
  by (cases current) (auto split: if_splits)

text \<open>A write to another object leaves the own properties of an object as they are.\<close>

lemma write_property_other:
  "a \<noteq> fst w \<Longrightarrow> own (write_property w h a) = own (h a)"
  by (cases w) (simp add: write_property_def)

lemma getter_heap_other:
  "a \<notin> fst ` set (writes g) \<Longrightarrow> own (getter_heap g h a) = own (h a)"
proof -
  have "a \<notin> fst ` set ws \<Longrightarrow> own (fold write_property ws h a) = own (h a)" for ws
    by (induction ws arbitrary: h) (simp_all add: write_property_other)
  then show "a \<notin> fst ` set (writes g) \<Longrightarrow> own (getter_heap g h a) = own (h a)"
    by (simp add: getter_heap_def)
qed

lemma fold_getter_heap_other:
  "\<forall>g \<in> set gs. a \<notin> fst ` set (writes g) \<Longrightarrow> own (fold getter_heap gs h a) = own (h a)"
  by (induction gs arbitrary: h) (simp_all add: getter_heap_other)

text \<open>A step that fails, and the loop on a path after the loop on its first part.\<close>

lemma for_segments_step_fails:
  "current = Null \<or> current = Undefined \<or>
   (typeof h current \<noteq> ''object'' \<and> typeof h current \<noteq> ''function'') \<or>
   map_of (own_properties h current) segment = None \<Longrightarrow>
   for_segments h defaultVal current (segment # segments) =
     Some (Normal (Return defaultVal), h)"
proof (cases "segment \<in> UNSAFE_KEYS")
  case True
  then show ?thesis by (simp add: for_segments_unsafe)
next
  case False
  assume "current = Null \<or> current = Undefined \<or>
   (typeof h current \<noteq> ''object'' \<and> typeof h current \<noteq> ''function'') \<or>
   map_of (own_properties h current) segment = None"
  with False show ?thesis
    by (cases current) (auto simp: for_segments_Ref for_segments_not_Ref split: if_splits)
qed

lemma for_segments_append:
  "for_segments h defaultVal v pre = Some (Normal (Finished c), h1) \<Longrightarrow>
   for_segments h defaultVal v (pre @ post) = for_segments h1 defaultVal c post"
proof (induction pre arbitrary: h v)
  case Nil
  then show ?case by simp
next
  case (Cons s pre)
  show ?case
  proof (cases "s \<in> UNSAFE_KEYS")
    case True
    with Cons.prems show ?thesis by (simp add: for_segments_unsafe)
  next
    case safe: False
    show ?thesis
    proof (cases v)
      case (Ref a)
      with safe Cons show ?thesis
        by (auto simp: for_segments_Ref split: option.splits property.splits completion.splits)
    qed (use Cons.prems in \<open>simp_all add: for_segments_not_Ref\<close>)
  qed
qed

lemmas example_simps =
  fallbackValue_def tokenize_def push_segment_def defaultVal_of_def UNSAFE_KEYS_def
  loose_eq_null_def own_or_sentinel_def hasOwnProperty_call_def find_property.simps
  for_segments.simps run_getter_def getter_heap_def write_property_def
  empty_heap_def plain_object_def array_object_def array_properties_def items_heap_def
  Object_prototype_def Array_prototype_def upt_rec

section \<open>The model on the repository's tests\<close>

text \<open>
  The cases of the repository's test file, evaluated in the model. \<^verbatim>\<open>assert.equal\<close> of
  the test is the equation of the returned value.
\<close>

lemmas test_simps =
  nested_heap_def matrix_heap_def dotted_heap_def intermediates_heap_def

lemma test_no_path:
  "fallbackValue empty_heap (Str ''hello'') Path_null (Str ''default'') =
     Some (Normal (Str ''hello''), empty_heap)"
  "fallbackValue empty_heap Undefined Path_null (Str ''default'') =
     Some (Normal (Str ''default''), empty_heap)"
  "fallbackValue empty_heap Null Path_undefined Undefined = Some (Normal Null, empty_heap)"
  "fallbackValue empty_heap Undefined Path_undefined Undefined = Some (Normal Null, empty_heap)"
  by (simp_all add: fallbackValue_def loose_eq_null_def defaultVal_of_def)

lemma test_dot_notation:
  "fallbackValue nested_heap (Ref 10) (Path ''a.b.c'') (Num 0) = Some (Normal (Num 42), nested_heap)"
  "fallbackValue nested_heap (Ref 10) (Path ''b'') (Str ''missing'') =
     Some (Normal (Str ''missing''), nested_heap)"
  "fallbackValue nested_heap (Ref 10) (Path ''a.c.d'') (Str ''nope'') =
     Some (Normal (Str ''nope''), nested_heap)"
  "fallbackValue nested_heap (Ref 10) (Path ''b'') Undefined = Some (Normal Null, nested_heap)"
  by (simp_all add: example_simps test_simps)

lemma test_bracket_notation:
  "fallbackValue items_heap (Ref 10) (Path ''items[1]'') (Num 0) =
     Some (Normal (Num 2), items_heap)"
  "fallbackValue items_heap (Ref 10) (Path ''items[9]'') (Num (- 1)) =
     Some (Normal (Num (- 1)), items_heap)"
  "fallbackValue matrix_heap (Ref 10) (Path ''matrix[0][1]'') (Num 0) =
     Some (Normal (Num 2), matrix_heap)"
  "fallbackValue matrix_heap (Ref 10) (Path ''matrix[1][0]'') (Num 0) =
     Some (Normal (Num 3), matrix_heap)"
  by (simp_all add: example_simps test_simps)

lemma test_escaped_dots:
  "fallbackValue dotted_heap (Ref 10) (Path (''a'' @ [backslash] @ ''.b.c'')) (Num 0) =
     Some (Normal (Num 42), dotted_heap)"
  "fallbackValue dotted_heap (Ref 10) (Path ''a.b.c'') (Num 0) =
     Some (Normal (Num 0), dotted_heap)"
  by (simp_all add: example_simps test_simps)

lemma test_prototype_pollution:
  "fallbackValue items_heap (Ref 10) (Path ''__proto__.evil'') (Str ''safe'') =
     Some (Normal (Str ''safe''), items_heap)"
  "fallbackValue items_heap (Ref 10) (Path ''constructor'') (Str ''safe'') =
     Some (Normal (Str ''safe''), items_heap)"
  "fallbackValue items_heap (Ref 10) (Path ''prototype'') (Str ''safe'') =
     Some (Normal (Str ''safe''), items_heap)"
  "fallbackValue intermediates_heap (Ref 14) (Path ''a.__proto__'') (Str ''safe'') =
     Some (Normal (Str ''safe''), intermediates_heap)"
  by (simp_all add: example_simps test_simps)

lemma test_non_traversable:
  "fallbackValue intermediates_heap (Ref 10) (Path ''a.b'') (Str ''nope'') =
     Some (Normal (Str ''nope''), intermediates_heap)"
  "fallbackValue intermediates_heap (Ref 11) (Path ''a.b'') (Str ''nope'') =
     Some (Normal (Str ''nope''), intermediates_heap)"
  "fallbackValue intermediates_heap (Ref 12) (Path ''a.b'') (Str ''nope'') =
     Some (Normal (Str ''nope''), intermediates_heap)"
  "fallbackValue intermediates_heap (Ref 13) (Path ''a.b'') (Str ''nope'') =
     Some (Normal (Str ''nope''), intermediates_heap)"
  "fallbackValue intermediates_heap (Ref 13) (Path ''a'') Undefined =
     Some (Normal Null, intermediates_heap)"
  by (simp_all add: example_simps test_simps)

section \<open>The claims\<close>

text \<open>
  In the statements, the fallback is the value bound to the parameter \<^verbatim>\<open>defaultVal\<close>:
  the third argument, or \<^verbatim>\<open>null\<close> when that argument is omitted or \<^verbatim>\<open>undefined\<close>.
  A result \<open>Some (Normal v, h')\<close> says that the call returns \<open>v\<close> and leaves the heap
  \<open>h'\<close>; \<open>Some (Throw e, h')\<close> would be a thrown error and \<open>None\<close> a call that does
  not return.
\<close>




text \<open>
  C2, as stated: a path whose segments contain a reserved key returns the fallback for
  every root value, and no own property is added to \<^verbatim>\<open>Object.prototype\<close> by the call.
  It fails when a segment before the reserved key names an accessor property: the
  getter runs before the reserved key is tested, so the call raises what the getter
  throws, and \<^verbatim>\<open>Object.prototype\<close> has the property that the getter adds to it.
\<close>

theorem unsafe_key_returns_fallback_counterexample:
  "''__proto__'' \<in> set (tokenize ''a.__proto__'') \<and> ''__proto__'' \<in> UNSAFE_KEYS \<and>
   fallbackValue throwing_getter_heap (Ref 10) (Path ''a.__proto__'') (Str ''safe'') =
     Some (Throw (Error ''boom''), throwing_getter_heap) \<and>
   fallbackValue polluting_getter_heap (Ref 10) (Path ''a.__proto__'') (Str ''safe'') =
     Some (Normal (Str ''safe''),
       write_property (Object_prototype, ''injected'', Num 1) polluting_getter_heap) \<and>
   map_of (own (write_property (Object_prototype, ''injected'', Num 1) polluting_getter_heap
                  Object_prototype)) ''injected'' = Some (Data (Num 1)) \<and>
   map_of (own (polluting_getter_heap Object_prototype)) ''injected'' = None"
proof -
  have t: "tokenize ''a.__proto__'' = [''a'', ''__proto__'']"
    by (simp add: tokenize_def push_segment_def)
  have safe: "''a'' \<notin> UNSAFE_KEYS" and unsafe: "''__proto__'' \<in> UNSAFE_KEYS"
    by (simp_all add: UNSAFE_KEYS_def)
  have 1: "fallbackValue throwing_getter_heap (Ref 10) (Path ''a.__proto__'') (Str ''safe'') =
     Some (Throw (Error ''boom''), throwing_getter_heap)"
    by (simp add: fallbackValue_def t safe for_segments_Ref throwing_getter_heap_def
        getter_heap_def)
  have 2: "fallbackValue polluting_getter_heap (Ref 10) (Path ''a.__proto__'') (Str ''safe'') =
     Some (Normal (Str ''safe''),
       write_property (Object_prototype, ''injected'', Num 1) polluting_getter_heap)"
    by (simp add: fallbackValue_def t safe unsafe for_segments_Ref for_segments_unsafe
        polluting_getter_heap_def getter_heap_def defaultVal_of_def)
  have 3: "map_of (own (write_property (Object_prototype, ''injected'', Num 1)
                          polluting_getter_heap Object_prototype)) ''injected'' =
             Some (Data (Num 1))"
    by (simp add: write_property_def)
  have 4: "map_of (own (polluting_getter_heap Object_prototype)) ''injected'' = None"
    by (simp add: polluting_getter_heap_def empty_heap_def Object_prototype_def)
  from t unsafe 1 2 3 4 show ?thesis by simp
qed

text \<open>
  C2, amended: when the segments of the path contain one of the reserved keys
  \<^verbatim>\<open>__proto__\<close>, \<^verbatim>\<open>prototype\<close> or \<^verbatim>\<open>constructor\<close>, at any position, and every getter
  that the traversal runs before it returns (in particular when the properties read are
  data properties), the call returns the fallback; the heap after the call differs from
  the heap before it by the writes of those getters only, so that the own properties of
  \<^verbatim>\<open>Object.prototype\<close> are those before the call unless a getter writes to it.
\<close>

theorem unsafe_key_returns_fallback:
  assumes "segment \<in> set (tokenize p)" and "segment \<in> UNSAFE_KEYS"
    and "\<forall>g \<in> set (getters_run h val (tokenize p)). returns g"
  shows "\<exists>h'. fallbackValue h val (Path p) arg = Some (Normal (defaultVal_of arg), h') \<and>
              h' = fold getter_heap (getters_run h val (tokenize p)) h \<and>
              ((\<forall>g \<in> set (getters_run h val (tokenize p)).
                  Object_prototype \<notin> fst ` set (writes g)) \<longrightarrow>
               own (h' Object_prototype) = own (h Object_prototype))"
  using assms
  by (simp add: fallbackValue_def for_segments_reserved fold_getter_heap_other)

theorem unsafe_key_returns_fallback_witness:
  "''__proto__'' \<in> set (tokenize ''items.__proto__'') \<and> ''__proto__'' \<in> UNSAFE_KEYS \<and>
   fallbackValue items_heap (Ref 10) (Path ''items.__proto__'') (Str ''safe'') =
     Some (Normal (Str ''safe''), items_heap) \<and>
   ''__proto__'' \<in> set (tokenize ''a.__proto__'') \<and>
   getters_run counting_getter_heap (Ref 10) (tokenize ''a.__proto__'') =
     [Getter [(10, ''n'', Num 1)] (Normal (Num 1))] \<and>
   returns (Getter [(10, ''n'', Num 1)] (Normal (Num 1))) \<and>
   Object_prototype \<notin> fst ` set (writes (Getter [(10, ''n'', Num 1)] (Normal (Num 1)))) \<and>
   (\<exists>h'. fallbackValue counting_getter_heap (Ref 10) (Path ''a.__proto__'') (Str ''safe'') =
            Some (Normal (Str ''safe''), h') \<and>
          own (h' Object_prototype) = own (counting_getter_heap Object_prototype))"
proof -
  have 1: "''__proto__'' \<in> set (tokenize ''items.__proto__'')"
    by (simp add: tokenize_def push_segment_def)
  have 2: "''__proto__'' \<in> UNSAFE_KEYS"
    by (simp add: UNSAFE_KEYS_def)
  have g3: "getters_run items_heap (Ref 10) (tokenize ''items.__proto__'') = []"
    by (simp add: example_simps)
  then have 3: "\<forall>g \<in> set (getters_run items_heap (Ref 10) (tokenize ''items.__proto__'')).
                  returns g"
    by simp
  have 4: "''__proto__'' \<in> set (tokenize ''a.__proto__'')"
    by (simp add: tokenize_def push_segment_def)
  have g5: "getters_run counting_getter_heap (Ref 10) (tokenize ''a.__proto__'') =
              [Getter [(10, ''n'', Num 1)] (Normal (Num 1))]"
    by (simp add: example_simps counting_getter_heap_def)
  have 5: "\<forall>g \<in> set (getters_run counting_getter_heap (Ref 10) (tokenize ''a.__proto__'')).
             returns g"
    by (simp add: g5 returns_def)
  have 6: "\<forall>g \<in> set (getters_run counting_getter_heap (Ref 10) (tokenize ''a.__proto__'')).
             Object_prototype \<notin> fst ` set (writes g)"
    by (simp add: g5 Object_prototype_def)
  have d: "defaultVal_of (Str ''safe'') = Str ''safe''"
    by (simp add: defaultVal_of_def)
  from unsafe_key_returns_fallback [OF 1 2 3, of "Str ''safe''"]
       unsafe_key_returns_fallback [OF 4 2 5, of "Str ''safe''"]
       1 2 g3 4 g5 5 6 d
  show ?thesis by (auto simp: returns_def Object_prototype_def)
qed

text \<open>
  C3. When every segment of the path is traversed successfully and leads to the value
  \<open>final\<close>, the call returns the fallback if \<open>final\<close> is \<^verbatim>\<open>undefined\<close> and returns
  \<open>final\<close> itself otherwise, a stored \<^verbatim>\<open>null\<close> included:
  \<^verbatim>\<open>fallbackValue({value: null}, "value", "D")\<close> is \<^verbatim>\<open>null\<close> and
  \<^verbatim>\<open>fallbackValue({value: undefined}, "value", "D")\<close> is \<^verbatim>\<open>"D"\<close>. The same holds
  of every run of the loop that reaches the end of the segments, through getters too.
\<close>

theorem final_value_undefined_only:
  "(walk_own h val (tokenize p) = Some final \<longrightarrow>
      fallbackValue h val (Path p) arg =
        Some (Normal (if final = Undefined then defaultVal_of arg else final), h)) \<and>
   (own (h a) = [(''value'', Data Null)] \<longrightarrow>
      fallbackValue h (Ref a) (Path ''value'') (Str ''D'') = Some (Normal Null, h)) \<and>
   (own (h a) = [(''value'', Data Undefined)] \<longrightarrow>
      fallbackValue h (Ref a) (Path ''value'') (Str ''D'') = Some (Normal (Str ''D''), h)) \<and>
   (for_segments h (defaultVal_of arg) val (tokenize p) = Some (Normal (Finished final), h') \<longrightarrow>
      fallbackValue h val (Path p) arg =
        Some (Normal (if final = Undefined then defaultVal_of arg else final), h'))"
proof (intro conjI impI)
  assume "walk_own h val (tokenize p) = Some final"
  then show "fallbackValue h val (Path p) arg =
        Some (Normal (if final = Undefined then defaultVal_of arg else final), h)"
    by (simp add: fallbackValue_Path walk_own_no_getters)
next
  assume "own (h a) = [(''value'', Data Null)]"
  then show "fallbackValue h (Ref a) (Path ''value'') (Str ''D'') = Some (Normal Null, h)"
    by (simp add: fallbackValue_Path tokenize_def push_segment_def UNSAFE_KEYS_def)
next
  assume "own (h a) = [(''value'', Data Undefined)]"
  then show "fallbackValue h (Ref a) (Path ''value'') (Str ''D'') =
      Some (Normal (Str ''D''), h)"
    by (simp add: fallbackValue_Path tokenize_def push_segment_def UNSAFE_KEYS_def
        defaultVal_of_def)
next
  assume "for_segments h (defaultVal_of arg) val (tokenize p) =
            Some (Normal (Finished final), h')"
  then show "fallbackValue h val (Path p) arg =
        Some (Normal (if final = Undefined then defaultVal_of arg else final), h')"
    by (simp add: fallbackValue_def)
qed

theorem final_value_undefined_only_witness:
  "walk_own (empty_heap(10 := plain_object [(''value'', Null)])) (Ref 10) (tokenize ''value'') =
     Some Null \<and>
   fallbackValue (empty_heap(10 := plain_object [(''value'', Null)])) (Ref 10)
     (Path ''value'') (Str ''D'') =
     Some (Normal Null, empty_heap(10 := plain_object [(''value'', Null)])) \<and>
   fallbackValue (empty_heap(10 := plain_object [(''value'', Undefined)])) (Ref 10)
     (Path ''value'') (Str ''D'') =
     Some (Normal (Str ''D''), empty_heap(10 := plain_object [(''value'', Undefined)])) \<and>
   for_segments counting_getter_heap (defaultVal_of (Str ''D'')) (Ref 10) (tokenize ''a'') =
     Some (Normal (Finished (Num 1)),
       getter_heap (Getter [(10, ''n'', Num 1)] (Normal (Num 1))) counting_getter_heap) \<and>
   fallbackValue counting_getter_heap (Ref 10) (Path ''a'') (Str ''D'') =
     Some (Normal (Num 1),
       getter_heap (Getter [(10, ''n'', Num 1)] (Normal (Num 1))) counting_getter_heap)"
proof -
  have w: "walk_own (empty_heap(10 := plain_object [(''value'', Null)])) (Ref 10)
             (tokenize ''value'') = Some Null"
    by (simp add: example_simps)
  have o1: "own ((empty_heap(10 := plain_object [(''value'', Null)])) 10) =
              [(''value'', Data Null)]"
    by (simp add: plain_object_def)
  have o2: "own ((empty_heap(10 := plain_object [(''value'', Undefined)])) 10) =
              [(''value'', Data Undefined)]"
    by (simp add: plain_object_def)
  have f: "for_segments counting_getter_heap (defaultVal_of (Str ''D'')) (Ref 10)
             (tokenize ''a'') =
           Some (Normal (Finished (Num 1)),
             getter_heap (Getter [(10, ''n'', Num 1)] (Normal (Num 1))) counting_getter_heap)"
    by (simp add: tokenize_def push_segment_def UNSAFE_KEYS_def for_segments_Ref
        counting_getter_heap_def)
  from final_value_undefined_only
         [where h = "empty_heap(10 := plain_object [(''value'', Null)])" and val = "Ref 10"
            and p = "''value''" and final = Null and arg = "Str ''D''" and a = 10]
       final_value_undefined_only
         [where h = "empty_heap(10 := plain_object [(''value'', Undefined)])" and val = "Ref 10"
            and p = "''value''" and final = Null and arg = "Str ''D''" and a = 10]
       final_value_undefined_only
         [where h = counting_getter_heap and val = "Ref 10" and p = "''a''"
            and final = "Num 1" and arg = "Str ''D''"
            and h' = "getter_heap (Getter [(10, ''n'', Num 1)] (Normal (Num 1)))
                        counting_getter_heap"]
       w o1 o2 f
  show ?thesis by simp
qed

text \<open>
  C4. When the path argument is omitted or null, the call returns the value itself if it
  is neither \<^verbatim>\<open>null\<close> nor \<^verbatim>\<open>undefined\<close> (so \<^verbatim>\<open>0\<close>, \<^verbatim>\<open>false\<close> and the empty string are
  returned), and the fallback otherwise.
\<close>

theorem no_path_nullish_coalescing:
  assumes "path = Path_undefined \<or> path = Path_null"
  shows "fallbackValue h v path arg =
           Some (Normal (if v = Null \<or> v = Undefined then defaultVal_of arg else v), h)"
  using assms by (auto simp: fallbackValue_def loose_eq_null_def)

theorem no_path_nullish_coalescing_witness:
  "fallbackValue empty_heap Null Path_undefined (Str ''D'') = Some (Normal (Str ''D''), empty_heap) \<and>
   fallbackValue empty_heap (Num 0) Path_null (Num 99) = Some (Normal (Num 0), empty_heap) \<and>
   fallbackValue empty_heap (Bool False) Path_null (Bool True) =
     Some (Normal (Bool False), empty_heap) \<and>
   fallbackValue empty_heap (Str '''') Path_null (Str ''fallback'') =
     Some (Normal (Str ''''), empty_heap)"
  using no_path_nullish_coalescing [of Path_undefined empty_heap Null "Str ''D''"]
        no_path_nullish_coalescing [of Path_null empty_heap "Num 0" "Num 99"]
        no_path_nullish_coalescing [of Path_null empty_heap "Bool False" "Bool True"]
        no_path_nullish_coalescing [of Path_null empty_heap "Str ''''" "Str ''fallback''"]
  by (simp add: defaultVal_of_def)


text \<open>
  C5, as stated: for every key \<open>k\<close> that contains a dot and every value \<open>v\<close>, the path
  made of \<open>k\<close> with every dot escaped resolves to \<open>v\<close> in the object \<^verbatim>\<open>{ k: v }\<close>.
  It fails for a key that contains an opening bracket, which the tokenizer still reads as
  the start of a bracket segment, and for the value \<^verbatim>\<open>undefined\<close>, which is replaced by
  the fallback.
\<close>

theorem escaped_key_round_trip_counterexample:
  "fallbackValue (empty_heap(10 := plain_object [(''a.b[0]'', Num 1)])) (Ref 10)
     (Path (escape_dots ''a.b[0]'')) (Str ''D'') =
     Some (Normal (Str ''D''), empty_heap(10 := plain_object [(''a.b[0]'', Num 1)])) \<and>
   fallbackValue (empty_heap(10 := plain_object [(''a.b[0]'', Num 1)])) (Ref 10)
     (Path (escape_dots ''a.b[0]'')) (Str ''D'') \<noteq>
     Some (Normal (Num 1), empty_heap(10 := plain_object [(''a.b[0]'', Num 1)])) \<and>
   fallbackValue (empty_heap(10 := plain_object [(''a.b'', Undefined)])) (Ref 10)
     (Path (escape_dots ''a.b'')) (Str ''D'') \<noteq>
     Some (Normal Undefined, empty_heap(10 := plain_object [(''a.b'', Undefined)]))"
  by (simp add: example_simps)

text \<open>
  C5, amended: for every key \<open>k\<close> that contains a dot and no opening bracket, and every
  value \<open>v\<close> other than \<^verbatim>\<open>undefined\<close>, the path made of \<open>k\<close> with every dot escaped
  resolves to \<open>v\<close> in the object \<^verbatim>\<open>{ k: v }\<close>, whatever the fallback.
\<close>

theorem escaped_key_round_trip:
  assumes "CHR ''.'' \<in> set k" and "CHR ''['' \<notin> set k" and "v \<noteq> Undefined"
    and "own (h a) = [(k, Data v)]"
  shows "fallbackValue h (Ref a) (Path (escape_dots k)) arg = Some (Normal v, h)"
proof -
  from assms(1) have "k \<noteq> []" by auto
  with assms(2) have "tokenize (escape_dots k) = [k]"
    by (rule tokenize_escape_dots)
  moreover from assms(1) have "k \<notin> UNSAFE_KEYS"
    by (rule dotted_key_safe)
  ultimately show ?thesis
    using assms(3,4) by (simp add: fallbackValue_Path)
qed

theorem escaped_key_round_trip_witness:
  "CHR ''.'' \<in> set ''first.name'' \<and> CHR ''['' \<notin> set ''first.name'' \<and>
   Str ''Alice'' \<noteq> Undefined \<and>
   own ((empty_heap(10 := plain_object [(''first.name'', Str ''Alice'')])) 10) =
     [(''first.name'', Data (Str ''Alice''))] \<and>
   escape_dots ''first.name'' = ''first'' @ [backslash] @ ''.name'' \<and>
   fallbackValue (empty_heap(10 := plain_object [(''first.name'', Str ''Alice'')])) (Ref 10)
     (Path (''first'' @ [backslash] @ ''.name'')) (Str ''Unknown'') =
     Some (Normal (Str ''Alice''), empty_heap(10 := plain_object [(''first.name'', Str ''Alice'')]))"
proof -
  have 1: "CHR ''.'' \<in> set ''first.name''" by simp
  have 2: "CHR ''['' \<notin> set ''first.name''" by simp
  have 3: "Str ''Alice'' \<noteq> Undefined" by simp
  have 4: "own ((empty_heap(10 := plain_object [(''first.name'', Str ''Alice'')])) 10) =
     [(''first.name'', Data (Str ''Alice''))]"
    by (simp add: plain_object_def)
  have 5: "escape_dots ''first.name'' = ''first'' @ [backslash] @ ''.name''" by simp
  from escaped_key_round_trip
         [where k = "''first.name''" and v = "Str ''Alice''" and a = 10
            and h = "empty_heap(10 := plain_object [(''first.name'', Str ''Alice'')])"
            and arg = "Str ''Unknown''", OF 1 2 3 4] 1 2 3 4 5
  show ?thesis by simp
qed

text \<open>
  C6, as stated: resolving the empty path returns the root when it is neither \<^verbatim>\<open>null\<close>
  nor \<^verbatim>\<open>undefined\<close> and the fallback when it is \<^verbatim>\<open>null\<close> or \<^verbatim>\<open>undefined\<close>. It fails
  for the root \<^verbatim>\<open>null\<close>: with a path, the final test is \<^verbatim>\<open>current === undefined\<close>, so
  \<^verbatim>\<open>null\<close> is returned.
\<close>

theorem empty_path_counterexample:
  "fallbackValue empty_heap Null (Path '''') (Str ''D'') = Some (Normal Null, empty_heap) \<and>
   fallbackValue empty_heap Null (Path '''') (Str ''D'') \<noteq>
     Some (Normal (Str ''D''), empty_heap)"
  by (simp add: example_simps)

text \<open>
  C6, amended: the empty path has no segments, and resolving it returns the root when
  the root is not \<^verbatim>\<open>undefined\<close> (a \<^verbatim>\<open>null\<close> root is returned as \<^verbatim>\<open>null\<close>) and the
  fallback when the root is \<^verbatim>\<open>undefined\<close>.
\<close>

theorem empty_path_returns_root:
  "tokenize '''' = [] \<and>
   fallbackValue h v (Path '''') arg =
     Some (Normal (if v = Undefined then defaultVal_of arg else v), h)"
  by (simp add: fallbackValue_Path tokenize_def push_segment_def)

theorem empty_path_returns_root_witness:
  "fallbackValue empty_heap Null (Path '''') (Str ''D'') = Some (Normal Null, empty_heap) \<and>
   fallbackValue empty_heap Undefined (Path '''') (Str ''D'') =
     Some (Normal (Str ''D''), empty_heap) \<and>
   fallbackValue empty_heap (Num 0) (Path '''') (Str ''D'') = Some (Normal (Num 0), empty_heap)"
  using empty_path_returns_root [of empty_heap Null "Str ''D''"]
        empty_path_returns_root [of empty_heap Undefined "Str ''D''"]
        empty_path_returns_root [of empty_heap "Num 0" "Str ''D''"]
  by (simp add: defaultVal_of_def)

text \<open>
  C7, as stated: at an opening bracket the tokenizer pushes the accumulator if it is not
  empty, reads the characters up to the next closing bracket and pushes them as a segment,
  then skips the closing bracket and one dot after it. It fails for an empty bracket:
  the content is pushed under the same test \<^verbatim>\<open>if (current)\<close> as every other segment, so
  \<^verbatim>\<open>"a[]"\<close> gives the one segment \<^verbatim>\<open>"a"\<close>, not \<^verbatim>\<open>"a"\<close> and the empty segment.
\<close>

theorem bracket_segment_counterexample:
  "tokenize_loop [] ''a'' (CHR ''['' # '''' @ CHR '']'' # '''') \<noteq>
     tokenize_loop (push_segment [] ''a'' @ ['''']) [] (skip_dot '''') \<and>
   tokenize ''a[]'' = [''a''] \<and> tokenize ''a[]'' \<noteq> [''a'', '''']"
  by (simp add: tokenize_def push_segment_def)

text \<open>
  C7, amended: at an opening bracket the tokenizer pushes the accumulator if it is not
  empty, reads the characters up to the next closing bracket, pushes them as a segment
  if they are not empty, then skips the closing bracket and one dot after it.
  Consecutive brackets are supported: \<^verbatim>\<open>"matrix[1][0]"\<close> gives \<^verbatim>\<open>matrix\<close>, \<^verbatim>\<open>1\<close>, \<^verbatim>\<open>0\<close>
  and \<^verbatim>\<open>"a[0].b"\<close> gives \<^verbatim>\<open>a\<close>, \<^verbatim>\<open>0\<close>, \<^verbatim>\<open>b\<close>.
\<close>

theorem bracket_segment:
  "(CHR '']'' \<notin> set content \<longrightarrow>
      tokenize_loop segments current (CHR ''['' # content @ CHR '']'' # rest) =
        tokenize_loop
          ((if current \<noteq> [] then segments @ [current] else segments) @
           (if content \<noteq> [] then [content] else []))
          [] (skip_dot rest)) \<and>
   tokenize ''matrix[1][0]'' = [''matrix'', ''1'', ''0''] \<and>
   tokenize ''a[0].b'' = [''a'', ''0'', ''b'']"
  by (simp add: read_bracket_closing tokenize_def push_segment_def)

theorem bracket_segment_witness:
  "CHR '']'' \<notin> set ''1'' \<and>
   tokenize_loop [] ''matrix'' ''[1][0]'' = tokenize_loop [''matrix'', ''1''] [] ''[0]'' \<and>
   tokenize_loop [''a''] [] ''[].b'' = tokenize_loop [''a''] [] ''b''"
  using bracket_segment [of "''1''" "[]" "''matrix''" "''[0]''"]
        bracket_segment [of "''''" "[''a'']" "''''" "''.b''"]
  by simp

text \<open>
  C8. Let the traversal have reached the value \<open>current\<close> before the segment
  \<open>segment\<close>. If \<open>current\<close> is \<^verbatim>\<open>null\<close>, \<^verbatim>\<open>undefined\<close> or neither an object nor a
  function, or if \<open>segment\<close> is not among its own properties, the call returns the
  fallback. Inherited members are never read: the value returned is the same when the
  prototype link of every object is replaced by any other. An index out of range on an
  array is a missing key: \<^verbatim>\<open>fallbackValue({items: [1, 2]}, "items[9]", -1)\<close> is \<^verbatim>\<open>-1\<close>.
  The first statement also holds when the loop has reached \<open>current\<close> through getters,
  in the heap \<open>hg\<close> that they left.
\<close>

theorem failing_step_returns_fallback:
  "(tokenize p = pre @ segment # post \<and> walk_own h val pre = Some current \<and>
    (current = Null \<or> current = Undefined \<or>
     (typeof h current \<noteq> ''object'' \<and> typeof h current \<noteq> ''function'') \<or>
     map_of (own_properties h current) segment = None) \<longrightarrow>
      fallbackValue h val (Path p) arg = Some (Normal (defaultVal_of arg), h)) \<and>
   map_option fst (fallbackValue (\<lambda>a. (h a)\<lparr>proto := pr a\<rparr>) val path arg) =
     map_option fst (fallbackValue h val path arg) \<and>
   (own (h a) = [(''items'', Data (Ref b))] \<and> own (h b) = array_properties [Num 1, Num 2] \<longrightarrow>
      fallbackValue h (Ref a) (Path ''items[9]'') (Num (- 1)) = Some (Normal (Num (- 1)), h)) \<and>
   (tokenize p = pre @ segment # post \<and>
    for_segments h (defaultVal_of arg) val pre = Some (Normal (Finished current), hg) \<and>
    (current = Null \<or> current = Undefined \<or>
     (typeof hg current \<noteq> ''object'' \<and> typeof hg current \<noteq> ''function'') \<or>
     map_of (own_properties hg current) segment = None) \<longrightarrow>
      fallbackValue h val (Path p) arg = Some (Normal (defaultVal_of arg), hg))"
proof (intro conjI impI)
  assume step: "tokenize p = pre @ segment # post \<and> walk_own h val pre = Some current \<and>
    (current = Null \<or> current = Undefined \<or>
     (typeof h current \<noteq> ''object'' \<and> typeof h current \<noteq> ''function'') \<or>
     map_of (own_properties h current) segment = None)"
  then have "current = Null \<or> current = Undefined \<or>
     (typeof h current \<noteq> ''object'' \<and> typeof h current \<noteq> ''function'') \<or>
     map_of (own_properties h current) segment = None"
    by (elim conjE)
  then have "walk_own h current (segment # post) = None \<and>
             getters_run h current (segment # post) = []"
    by (rule walk_own_step_fails)
  with step have "walk_own h val (tokenize p) = None \<and> getters_run h val (tokenize p) = []"
    by (simp add: walk_own_append getters_run_append)
  then show "fallbackValue h val (Path p) arg = Some (Normal (defaultVal_of arg), h)"
    by (simp add: fallbackValue_Path)
next
  show "map_option fst (fallbackValue (\<lambda>a. (h a)\<lparr>proto := pr a\<rparr>) val path arg) =
     map_option fst (fallbackValue h val path arg)"
    using fallbackValue_protos [of pr h val path arg] by (simp add: with_protos_def)
next
  assume "own (h a) = [(''items'', Data (Ref b))] \<and>
          own (h b) = array_properties [Num 1, Num 2]"
  then show "fallbackValue h (Ref a) (Path ''items[9]'') (Num (- 1)) =
      Some (Normal (Num (- 1)), h)"
    by (simp add: fallbackValue_Path tokenize_def push_segment_def UNSAFE_KEYS_def
        defaultVal_of_def array_properties_def upt_rec)
next
  assume step: "tokenize p = pre @ segment # post \<and>
    for_segments h (defaultVal_of arg) val pre = Some (Normal (Finished current), hg) \<and>
    (current = Null \<or> current = Undefined \<or>
     (typeof hg current \<noteq> ''object'' \<and> typeof hg current \<noteq> ''function'') \<or>
     map_of (own_properties hg current) segment = None)"
  then have "current = Null \<or> current = Undefined \<or>
     (typeof hg current \<noteq> ''object'' \<and> typeof hg current \<noteq> ''function'') \<or>
     map_of (own_properties hg current) segment = None"
    by (elim conjE)
  then have "for_segments hg (defaultVal_of arg) current (segment # post) =
               Some (Normal (Return (defaultVal_of arg)), hg)"
    by (rule for_segments_step_fails)
  with step have "for_segments h (defaultVal_of arg) val (tokenize p) =
               Some (Normal (Return (defaultVal_of arg)), hg)"
    by (simp add: for_segments_append)
  then show "fallbackValue h val (Path p) arg = Some (Normal (defaultVal_of arg), hg)"
    by (simp add: fallbackValue_def)
qed

text \<open>
  The example heap holds \<^verbatim>\<open>{ items: [1, 2] }\<close> below an \<^verbatim>\<open>Object.prototype\<close> with the
  method \<^verbatim>\<open>toString\<close>: the member access \<^verbatim>\<open>root["toString"]\<close> finds the inherited
  method, and the call returns the fallback. In the last example the step that fails comes
  after a getter: \<^verbatim>\<open>a\<close> is read by its getter, which returns \<^verbatim>\<open>1\<close>, not an object.
\<close>

theorem failing_step_returns_fallback_witness:
  "tokenize ''items[9]'' = [''items''] @ ''9'' # [] \<and>
   walk_own items_heap (Ref 10) [''items''] = Some (Ref 11) \<and>
   map_of (own_properties items_heap (Ref 11)) ''9'' = None \<and>
   fallbackValue items_heap (Ref 10) (Path ''items[9]'') (Num (- 1)) =
     Some (Normal (Num (- 1)), items_heap) \<and>
   tokenize ''toString'' = [] @ ''toString'' # [] \<and>
   get_member items_heap (Ref 10) ''toString'' = Some (Normal (Ref 5), items_heap) \<and>
   map_of (own_properties items_heap (Ref 10)) ''toString'' = None \<and>
   fallbackValue items_heap (Ref 10) (Path ''toString'') (Str ''D'') =
     Some (Normal (Str ''D''), items_heap) \<and>
   tokenize ''a.b'' = [''a''] @ ''b'' # [] \<and>
   for_segments counting_getter_heap (defaultVal_of (Str ''D'')) (Ref 10) [''a''] =
     Some (Normal (Finished (Num 1)),
       getter_heap (Getter [(10, ''n'', Num 1)] (Normal (Num 1))) counting_getter_heap) \<and>
   fallbackValue counting_getter_heap (Ref 10) (Path ''a.b'') (Str ''D'') =
     Some (Normal (Str ''D''),
       getter_heap (Getter [(10, ''n'', Num 1)] (Normal (Num 1))) counting_getter_heap)"
proof -
  have t1: "tokenize ''items[9]'' = [''items''] @ ''9'' # []"
    by (simp add: tokenize_def push_segment_def)
  have w1: "walk_own items_heap (Ref 10) [''items''] = Some (Ref 11)"
    by (simp add: example_simps)
  have o1: "map_of (own_properties items_heap (Ref 11)) ''9'' = None"
    by (simp add: example_simps)
  have t2: "tokenize ''toString'' = [] @ ''toString'' # []"
    by (simp add: tokenize_def push_segment_def)
  have w2: "walk_own items_heap (Ref 10) [] = Some (Ref 10)"
    by simp
  have g2: "get_member items_heap (Ref 10) ''toString'' = Some (Normal (Ref 5), items_heap)"
    by (simp add: example_simps)
  have o2: "map_of (own_properties items_heap (Ref 10)) ''toString'' = None"
    by (simp add: example_simps)
  have t3: "tokenize ''a.b'' = [''a''] @ ''b'' # []"
    by (simp add: tokenize_def push_segment_def)
  have f3: "for_segments counting_getter_heap (defaultVal_of (Str ''D'')) (Ref 10) [''a''] =
     Some (Normal (Finished (Num 1)),
       getter_heap (Getter [(10, ''n'', Num 1)] (Normal (Num 1))) counting_getter_heap)"
    by (simp add: UNSAFE_KEYS_def for_segments_Ref counting_getter_heap_def)
  have y3: "typeof (getter_heap (Getter [(10, ''n'', Num 1)] (Normal (Num 1)))
              counting_getter_heap) (Num 1) = ''number''"
    by simp
  have d: "defaultVal_of (Num (- 1)) = Num (- 1)" "defaultVal_of (Str ''D'') = Str ''D''"
    by (simp_all add: defaultVal_of_def)
  from failing_step_returns_fallback
         [where p = "''items[9]''" and pre = "[''items'']" and segment = "''9''" and post = "[]"
            and h = items_heap and val = "Ref 10" and current = "Ref 11" and arg = "Num (- 1)"]
       failing_step_returns_fallback
         [where p = "''toString''" and pre = "[]" and segment = "''toString''" and post = "[]"
            and h = items_heap and val = "Ref 10" and current = "Ref 10" and arg = "Str ''D''"]
       failing_step_returns_fallback
         [where p = "''a.b''" and pre = "[''a'']" and segment = "''b''" and post = "[]"
            and h = counting_getter_heap and val = "Ref 10" and current = "Num 1"
            and arg = "Str ''D''"
            and hg = "getter_heap (Getter [(10, ''n'', Num 1)] (Normal (Num 1)))
                        counting_getter_heap"]
       t1 w1 o1 t2 w2 g2 o2 t3 f3 y3 d
  show ?thesis by simp
qed

text \<open>
  C9, as stated: the call never mutates the root value or a value nested in it. It fails
  for a root with an accessor property on the path whose getter writes: after
  \<^verbatim>\<open>const o = { n: 0, get a() { this.n++; return 1 } }; fallbackValue(o, "a", "D")\<close>
  the property \<^verbatim>\<open>o.n\<close> is \<^verbatim>\<open>1\<close>.
\<close>

theorem fallbackValue_heap_unchanged_counterexample:
  "fallbackValue counting_getter_heap (Ref 10) (Path ''a'') (Str ''D'') =
     Some (Normal (Num 1), write_property (10, ''n'', Num 1) counting_getter_heap) \<and>
   map_of (own (write_property (10, ''n'', Num 1) counting_getter_heap 10)) ''n'' =
     Some (Data (Num 1)) \<and>
   map_of (own (counting_getter_heap 10)) ''n'' = Some (Data (Num 0)) \<and>
   fallbackValue counting_getter_heap (Ref 10) (Path ''a'') (Str ''D'') \<noteq>
     Some (Normal (Num 1), counting_getter_heap)"
proof -
  have r: "fallbackValue counting_getter_heap (Ref 10) (Path ''a'') (Str ''D'') =
             Some (Normal (Num 1), write_property (10, ''n'', Num 1) counting_getter_heap)"
    by (simp add: fallbackValue_def tokenize_def push_segment_def UNSAFE_KEYS_def
        for_segments_Ref counting_getter_heap_def getter_heap_def)
  have n1: "map_of (own (write_property (10, ''n'', Num 1) counting_getter_heap 10)) ''n'' =
              Some (Data (Num 1))"
    by (simp add: write_property_def)
  have n0: "map_of (own (counting_getter_heap 10)) ''n'' = Some (Data (Num 0))"
    by (simp add: counting_getter_heap_def)
  from n1 n0 have "write_property (10, ''n'', Num 1) counting_getter_heap \<noteq>
                   counting_getter_heap"
    by auto
  with r n1 n0 show ?thesis by simp
qed

text \<open>
  C9, amended: for every root value made of ordinary objects, every path and every
  fallback, the call itself writes to no object: the heap after the call is the heap
  before it with the writes of the getters that the traversal ran. When those getters
  write nothing, in particular when every property that the traversal reads is a data
  property, and when there is no path, the root value and every value nested in it are
  after the call as they were before it.
\<close>

theorem fallbackValue_heap_unchanged:
  "(\<exists>result. fallbackValue h val (Path p) arg =
      Some (result, fold getter_heap (getters_run h val (tokenize p)) h)) \<and>
   ((\<forall>g \<in> set (getters_run h val (tokenize p)). writes g = []) \<longrightarrow>
      (\<exists>result. fallbackValue h val (Path p) arg = Some (result, h))) \<and>
   (path = Path_undefined \<or> path = Path_null \<longrightarrow>
      (\<exists>result. fallbackValue h val path arg = Some (result, h)))"
proof (intro conjI impI)
  show *: "\<exists>result. fallbackValue h val (Path p) arg =
      Some (result, fold getter_heap (getters_run h val (tokenize p)) h)"
    using fallbackValue_getters [of h val p arg] by blast
  assume "\<forall>g \<in> set (getters_run h val (tokenize p)). writes g = []"
  then have "fold getter_heap (getters_run h val (tokenize p)) h = h"
    by (rule fold_getter_heap_no_writes)
  with * show "\<exists>result. fallbackValue h val (Path p) arg = Some (result, h)"
    by simp
next
  assume "path = Path_undefined \<or> path = Path_null"
  then show "\<exists>result. fallbackValue h val path arg = Some (result, h)"
    by (simp add: fallbackValue_no_path)
qed

text \<open>
  In the first example every property read is a data property; in the second the getter
  that runs writes nothing (it throws).
\<close>

theorem fallbackValue_heap_unchanged_witness:
  "getters_run items_heap (Ref 10) (tokenize ''items[1]'') = [] \<and>
   (\<exists>result. fallbackValue items_heap (Ref 10) (Path ''items[1]'') (Num 0) =
      Some (result, items_heap)) \<and>
   getters_run throwing_getter_heap (Ref 10) (tokenize ''a'') =
     [Getter [] (Throw (Error ''boom''))] \<and>
   writes (Getter [] (Throw (Error ''boom''))) = [] \<and>
   (\<exists>result. fallbackValue throwing_getter_heap (Ref 10) (Path ''a'') (Num 0) =
      Some (result, throwing_getter_heap)) \<and>
   (\<exists>result. fallbackValue items_heap (Ref 10) Path_null (Num 0) = Some (result, items_heap))"
proof -
  have g1: "getters_run items_heap (Ref 10) (tokenize ''items[1]'') = []"
    by (simp add: example_simps)
  have g2: "getters_run throwing_getter_heap (Ref 10) (tokenize ''a'') =
              [Getter [] (Throw (Error ''boom''))]"
    by (simp add: example_simps throwing_getter_heap_def)
  from fallbackValue_heap_unchanged
         [where h = items_heap and val = "Ref 10" and p = "''items[1]''" and arg = "Num 0"
            and path = Path_null]
       fallbackValue_heap_unchanged
         [where h = throwing_getter_heap and val = "Ref 10" and p = "''a''" and arg = "Num 0"
            and path = Path_null]
       g1 g2
  show ?thesis by simp
qed

text \<open>
  C10. A backslash that is not followed by a dot is appended to the current segment as
  it is; only a backslash followed by a dot is rewritten, to a dot. A path without a dot
  and without an opening bracket is therefore one segment, its backslashes kept, and
  \<^verbatim>\<open>a\b.c\<close> gives the segments \<^verbatim>\<open>a\b\<close> and \<^verbatim>\<open>c\<close>.
\<close>

theorem backslash_verbatim:
  "(\<not> next_is_dot rest \<longrightarrow>
      tokenize_loop segments current (backslash # rest) =
        tokenize_loop segments (current @ [backslash]) rest) \<and>
   tokenize_loop segments current (backslash # CHR ''.'' # rest) =
     tokenize_loop segments (current @ ''.'') rest \<and>
   (CHR ''.'' \<notin> set s \<and> CHR ''['' \<notin> set s \<and> s \<noteq> [] \<longrightarrow> tokenize s = [s]) \<and>
   tokenize (''a'' @ [backslash] @ ''b.c'') = [''a'' @ [backslash] @ ''b'', ''c'']"
  by (simp add: tokenize_def tokenize_loop_plain push_segment_def)

theorem backslash_verbatim_witness:
  "\<not> next_is_dot ''b.c'' \<and>
   tokenize_loop [] ''a'' (backslash # ''b.c'') = tokenize_loop [] (''a'' @ [backslash]) ''b.c'' \<and>
   tokenize [backslash, CHR ''n'', backslash] = [[backslash, CHR ''n'', backslash]]"
  using backslash_verbatim [of "''b.c''" "[]" "''a''" "[backslash, CHR ''n'', backslash]"]
  by simp

end
